theory Spec2Isabelle
  imports Complex_Main "HOL-Library.AList" "HOL-Library.Product_Lexorder"
begin

section \<open>Data model\<close>

text \<open>
  A calendar date is a triple (year, month, day); the lexicographic order on triples is
  the calendar order. Python floats are modelled by the reals (rounding, infinities and
  NaN are outside the model), Python's unbounded integers by \<open>int\<close>.
\<close>

type_synonym date = "nat \<times> nat \<times> nat"

text \<open>
  \<open>database.StockPrice\<close>: one row of the table \<open>stock_prices\<close>. The same fields are the
  keys of the dict that \<open>parse_stock_data\<close> builds and that \<open>StockPrice(**record)\<close>
  consumes. The autoincrement column \<open>id\<close> is assigned by the database and is read
  nowhere in the program; a row's position in the table stands for it.
\<close>

record stock_price =
  symbol :: string
  date :: date
  open_price :: real
  high_price :: real
  low_price :: real
  close_price :: real
  volume :: int
  created_at :: nat

text \<open>The columns of the unique index \<open>idx_symbol_date\<close>.\<close>

definition key :: "stock_price \<Rightarrow> string \<times> date" where
  "key r = (symbol r, date r)"

text \<open>
  What \<open>response.json()\<close> yields: any JSON value. An object is the dict Python makes
  of it, an association list in insertion order with distinct keys. Numbers are reals
  (NaN, the infinities and overflow are outside the model, as they are for floats).
  The provider documents the daily series as an object from day strings to objects from
  field names to texts; nothing in the program checks that it is.
\<close>

datatype json = JNull | JBool bool | JNum real | JStr string
  | JArr "json list" | JObj "(string \<times> json) list"

text \<open>The exceptions the program can meet.\<close>

datatype exn = KeyError | ValueError | TypeError | AttributeError | ZeroDivisionError
  | ConnectionError | HTTPError | JSONDecodeError | SQLAlchemyError

text \<open>
  What the library functions of the parser make of a text is a parameter of the model.
  \<open>strptime s\<close> is \<open>datetime.strptime(s, '%Y-%m-%d')\<close>, \<open>float_of\<close> is \<open>float\<close> and
  \<open>int_of\<close> is \<open>int\<close>, each applied to a \<open>str\<close>: on a text they do not accept they raise
  ValueError, which is the value \<open>None\<close> here. \<open>now symb d\<close> is the reading of
  \<open>datetime.now()\<close> taken while the entry of day \<open>d\<close> of \<open>symb\<close> is parsed.
\<close>

record builtins =
  strptime :: "string \<Rightarrow> date option"
  float_of :: "string \<Rightarrow> real option"
  int_of :: "string \<Rightarrow> int option"
  now :: "string \<Rightarrow> string \<Rightarrow> nat"

section \<open>Exceptions as values\<close>

definition bindE :: "exn + 'a \<Rightarrow> ('a \<Rightarrow> exn + 'b) \<Rightarrow> exn + 'b" where
  "bindE m f = (case m of Inl e \<Rightarrow> Inl e | Inr v \<Rightarrow> f v)"

text \<open>
  \<open>values[k]\<close> with a string \<open>k\<close>: on a dict, KeyError when the key is absent; on
  anything else JSON can be (a text, a list, a number, a boolean, None), TypeError.
\<close>

definition subscript :: "json \<Rightarrow> string \<Rightarrow> exn + json" where
  "subscript values k =
     (case values of
        JObj members \<Rightarrow> (case map_of members k of None \<Rightarrow> Inl KeyError | Some v \<Rightarrow> Inr v)
      | _ \<Rightarrow> Inl TypeError)"

text \<open>A library conversion applied to a text: ValueError when the text is rejected.\<close>

definition convert :: "(string \<Rightarrow> 'a option) \<Rightarrow> string \<Rightarrow> exn + 'a" where
  "convert f s = (case f s of None \<Rightarrow> Inl ValueError | Some v \<Rightarrow> Inr v)"

text \<open>
  \<open>float(v)\<close> and \<open>int(v)\<close> for a JSON value: a text is converted or refused with
  ValueError; a number is taken (\<open>int\<close> cuts the fraction off, towards zero); a
  boolean counts as 1 or 0; None, a list and a dict raise TypeError.
\<close>

definition py_float :: "builtins \<Rightarrow> json \<Rightarrow> exn + real" where
  "py_float B v =
     (case v of
        JStr s \<Rightarrow> convert (float_of B) s
      | JNum x \<Rightarrow> Inr x
      | JBool b \<Rightarrow> Inr (if b then 1 else 0)
      | _ \<Rightarrow> Inl TypeError)"

definition py_int :: "builtins \<Rightarrow> json \<Rightarrow> exn + int" where
  "py_int B v =
     (case v of
        JStr s \<Rightarrow> convert (int_of B) s
      | JNum x \<Rightarrow> Inr (if 0 \<le> x then \<lfloor>x\<rfloor> else \<lceil>x\<rceil>)
      | JBool b \<Rightarrow> Inr (if b then 1 else 0)
      | _ \<Rightarrow> Inl TypeError)"

section \<open>data_fetcher.py: the parser\<close>

text \<open>
  The body of the \<open>try\<close> in \<open>parse_stock_data\<close>: the dict display is evaluated key by
  key, in the order written, and the first exception ends it.
\<close>

definition build_record :: "builtins \<Rightarrow> string \<Rightarrow> string \<Rightarrow> json \<Rightarrow> exn + stock_price" where
  "build_record B symb date_str values =
     bindE (convert (strptime B) date_str) (\<lambda>d.
     bindE (bindE (subscript values ''1. open'') (py_float B)) (\<lambda>op.
     bindE (bindE (subscript values ''2. high'') (py_float B)) (\<lambda>hi.
     bindE (bindE (subscript values ''3. low'') (py_float B)) (\<lambda>lo.
     bindE (bindE (subscript values ''4. close'') (py_float B)) (\<lambda>cl.
     bindE (bindE (subscript values ''5. volume'') (py_int B)) (\<lambda>vol.
     Inr \<lparr>symbol = symb, date = d, open_price = op, high_price = hi, low_price = lo,
          close_price = cl, volume = vol, created_at = now B symb date_str\<rparr>))))))"

text \<open>
  The loop of \<open>parse_stock_data\<close> over the items of the series, with the list
  \<open>parsed_data\<close> as accumulator. The handler \<open>except (KeyError, ValueError)\<close> continues
  with the next entry; an exception of another class leaves the function.
\<close>

fun parse_loop :: "builtins \<Rightarrow> string \<Rightarrow> (string \<times> json) list \<Rightarrow> stock_price list \<Rightarrow>
    exn + stock_price list" where
  "parse_loop B symb [] parsed_data = Inr parsed_data"
| "parse_loop B symb ((date_str, values) # rest) parsed_data =
     (case build_record B symb date_str values of
        Inr record \<Rightarrow> parse_loop B symb rest (parsed_data @ [record])
      | Inl e \<Rightarrow> if e = KeyError \<or> e = ValueError
                 then parse_loop B symb rest parsed_data
                 else Inl e)"

text \<open>
  \<open>parse_stock_data\<close>: \<open>time_series_data.items()\<close> stands outside the \<open>try\<close>; on a
  value that is no dict it raises AttributeError.
\<close>

definition parse_stock_data :: "builtins \<Rightarrow> string \<Rightarrow> json \<Rightarrow> exn + stock_price list" where
  "parse_stock_data B symb time_series_data =
     (case time_series_data of
        JObj entries \<Rightarrow> parse_loop B symb entries []
      | _ \<Rightarrow> Inl AttributeError)"

section \<open>data_fetcher.py: one request\<close>

text \<open>
  What one request can come to. \<open>Unreachable\<close>: \<open>requests.get\<close> raises.
  \<open>BadStatus\<close>: \<open>raise_for_status\<close> raises. \<open>NotJson\<close>: \<open>response.json()\<close> raises.
  \<open>Body\<close>: the JSON value of the body.
\<close>

datatype http_response = Unreachable | BadStatus | NotJson | Body json

text \<open>\<open>len(v)\<close> is defined for a text, a list and a dict, and raises TypeError otherwise.\<close>

definition has_len :: "json \<Rightarrow> bool" where
  "has_len v = (case v of JStr s \<Rightarrow> True | JArr xs \<Rightarrow> True | JObj members \<Rightarrow> True | _ \<Rightarrow> False)"

text \<open>
  The body of the \<open>try\<close> in \<open>fetch_daily_data\<close>, the tests in the order of the source.
  Python's \<open>None\<close> is \<open>None\<close>, a returned series is \<open>Some\<close>. The success message
  takes \<open>len(time_series)\<close> before the series is returned. When the body is no object
  (an array, a text, a number, a boolean, null), either the \<open>in\<close> test raises
  TypeError, or the key is found and the subscript by a string raises TypeError, or no
  key is found and the third test returns \<open>None\<close>; the function returns \<open>None\<close> on
  each of these paths, and the model takes the one with the TypeError. The messages
  written to the log are not part of the returned value and are not modelled.
\<close>

definition fetch_body :: "http_response \<Rightarrow> exn + json option" where
  "fetch_body response =
     (case response of
        Unreachable \<Rightarrow> Inl ConnectionError
      | BadStatus \<Rightarrow> Inl HTTPError
      | NotJson \<Rightarrow> Inl JSONDecodeError
      | Body data \<Rightarrow>
          (case data of
             JObj members \<Rightarrow>
               if map_of members ''Error Message'' \<noteq> None then Inr None
               else if map_of members ''Note'' \<noteq> None then Inr None
               else (case map_of members ''Time Series (Daily)'' of
                       None \<Rightarrow> Inr None
                     | Some time_series \<Rightarrow>
                         if has_len time_series then Inr (Some time_series)
                         else Inl TypeError)
           | _ \<Rightarrow> Inl TypeError))"

text \<open>
  \<open>fetch_daily_data\<close>: the handler \<open>except Exception\<close> turns every exception into
  \<open>None\<close>. The first argument is the provider as it answers at the time of the call.
\<close>

definition fetch_daily_data :: "(string \<Rightarrow> http_response) \<Rightarrow> string \<Rightarrow> json option" where
  "fetch_daily_data provider symb =
     (case fetch_body (provider symb) of Inl e \<Rightarrow> None | Inr result \<Rightarrow> result)"

section \<open>data_fetcher.py: the batch\<close>

text \<open>The effects of the batch that a caller can observe from outside, in order.\<close>

datatype event = Request string | Sleep nat

text \<open>
  \<open>if time_series:\<close> is false for \<open>None\<close>, for an empty dict, list or text, for zero
  and for False.
\<close>

definition truth_value :: "json \<Rightarrow> bool" where
  "truth_value v =
     (case v of
        JNull \<Rightarrow> False
      | JBool b \<Rightarrow> b
      | JNum x \<Rightarrow> x \<noteq> 0
      | JStr s \<Rightarrow> s \<noteq> []
      | JArr xs \<Rightarrow> xs \<noteq> []
      | JObj members \<Rightarrow> members \<noteq> [])"

definition truthy :: "json option \<Rightarrow> bool" where
  "truthy time_series = (case time_series of None \<Rightarrow> False | Some v \<Rightarrow> truth_value v)"

type_synonym all_data = "(string \<times> stock_price list) list"

text \<open>
  The loop of \<open>fetch_multiple_symbols\<close> over \<open>enumerate(symbols)\<close>; \<open>n\<close> is
  \<open>len(symbols)\<close>. \<open>net i\<close> is the provider as it answers the request of iteration \<open>i\<close>.
  \<open>all_data[symbol] = v\<close> replaces the value of a key already present and keeps its
  place, or appends a new key: \<open>AList.update\<close>. The function has no handler: an
  exception out of \<open>parse_stock_data\<close> ends the batch.
\<close>

fun fetch_loop :: "builtins \<Rightarrow> (nat \<Rightarrow> string \<Rightarrow> http_response) \<Rightarrow> nat \<Rightarrow> nat \<Rightarrow>
    (nat \<times> string) list \<Rightarrow> all_data \<times> event list \<Rightarrow> exn + all_data \<times> event list" where
  "fetch_loop B net delay n [] st = Inr st"
| "fetch_loop B net delay n ((i, symb) # rest) (all_data, events) =
     (let time_series = fetch_daily_data (net i) symb;
          events1 = events @ [Request symb]
      in if truthy time_series then
           bindE (parse_stock_data B symb (the time_series)) (\<lambda>parsed_data.
             fetch_loop B net delay n rest
               (AList.update symb parsed_data all_data,
                if int i < int n - 1 then events1 @ [Sleep delay] else events1))
         else fetch_loop B net delay n rest (AList.update symb [] all_data, events1))"

definition fetch_multiple_symbols :: "builtins \<Rightarrow> (nat \<Rightarrow> string \<Rightarrow> http_response) \<Rightarrow>
    string list \<Rightarrow> nat \<Rightarrow> exn + all_data \<times> event list" where
  "fetch_multiple_symbols B net symbols delay =
     fetch_loop B net delay (length symbols) (enumerate 0 symbols) ([], [])"

text \<open>The requests and the delays of a trace.\<close>

definition requests :: "event list \<Rightarrow> string list" where
  "requests events = concat (map (\<lambda>e. case e of Request s \<Rightarrow> [s] | Sleep d \<Rightarrow> []) events)"

definition delays :: "event list \<Rightarrow> nat list" where
  "delays events = concat (map (\<lambda>e. case e of Request s \<Rightarrow> [] | Sleep d \<Rightarrow> [d]) events)"

section \<open>main.py: storing\<close>

text \<open>
  The session of \<open>fetch_and_store_data\<close>: the table as the database holds it, and the
  rows added and not yet committed. The session is made by \<open>sessionmaker(bind=engine)\<close>,
  which flushes before every query, so a query sees the pending rows too.
\<close>

record session =
  committed :: "stock_price list"
  pending :: "stock_price list"

definition get_session :: "stock_price list \<Rightarrow> session" where
  "get_session table = \<lparr>committed = table, pending = []\<rparr>"

text \<open>\<open>session.query(StockPrice).filter_by(symbol=.., date=..).first()\<close>\<close>

definition query_first :: "session \<Rightarrow> string \<Rightarrow> date \<Rightarrow> stock_price option" where
  "query_first s symb d =
     find (\<lambda>row. symbol row = symb \<and> date row = d) (committed s @ pending s)"

definition session_add :: "session \<Rightarrow> stock_price \<Rightarrow> session" where
  "session_add s row = s\<lparr>pending := pending s @ [row]\<rparr>"

text \<open>\<open>session.commit()\<close>; whether the database accepts it is not the program's to decide.\<close>

definition session_commit :: "bool \<Rightarrow> session \<Rightarrow> exn + session" where
  "session_commit accepted s =
     (if accepted then Inr \<lparr>committed = committed s @ pending s, pending = []\<rparr>
      else Inl SQLAlchemyError)"

definition session_rollback :: "session \<Rightarrow> session" where
  "session_rollback s = s\<lparr>pending := []\<rparr>"

text \<open>
  The inner loop \<open>for record in records\<close>, on the session and the two counters.
  A row found is an object, hence true in \<open>if existing:\<close>.
\<close>

fun store_records :: "stock_price list \<Rightarrow> session \<times> nat \<times> nat \<Rightarrow> session \<times> nat \<times> nat" where
  "store_records [] st = st"
| "store_records (record # rest) (s, total_stored, total_skipped) =
     (case query_first s (symbol record) (date record) of
        Some existing \<Rightarrow> store_records rest (s, total_stored, total_skipped + 1)
      | None \<Rightarrow> store_records rest (session_add s record, total_stored + 1, total_skipped))"

text \<open>
  The outer loop \<open>for symbol, records in all_data.items()\<close> with one commit for each
  symbol. \<open>commit_ok symb\<close> says whether the database accepts the commit of that
  symbol's rows. An exception leaves the loop with the session as it is then.
\<close>

fun store_symbols :: "(string \<Rightarrow> bool) \<Rightarrow> all_data \<Rightarrow> session \<times> nat \<times> nat \<Rightarrow>
    exn \<times> session + session \<times> nat \<times> nat" where
  "store_symbols commit_ok [] st = Inr st"
| "store_symbols commit_ok ((symb, records) # rest) st =
     (case store_records records st of
        (s, total_stored, total_skipped) \<Rightarrow>
          (case session_commit (commit_ok symb) s of
             Inl e \<Rightarrow> Inl (e, s)
           | Inr s' \<Rightarrow> store_symbols commit_ok rest (s', total_stored, total_skipped)))"

text \<open>
  What the storing part of \<open>fetch_and_store_data\<close> leaves: the value returned, the
  table after \<open>session.close()\<close>, and the summary (stored, skipped) when it is logged.
\<close>

record store_result =
  returned :: bool
  table_after :: "stock_price list"
  summary :: "(nat \<times> nat) option"

text \<open>
  Lines 47 to 83 of \<open>fetch_and_store_data\<close>: the \<open>try\<close> around the two loops, the
  handler that rolls back and returns False, and the \<open>finally\<close> that closes the session.
\<close>

definition store_data :: "(string \<Rightarrow> bool) \<Rightarrow> stock_price list \<Rightarrow> all_data \<Rightarrow> store_result" where
  "store_data commit_ok table all_data =
     (case store_symbols commit_ok all_data (get_session table, 0, 0) of
        Inr (s, total_stored, total_skipped) \<Rightarrow>
          \<lparr>returned = True, table_after = committed s,
           summary = Some (total_stored, total_skipped)\<rparr>
      | Inl (e, s) \<Rightarrow>
          \<lparr>returned = False, table_after = committed (session_rollback s), summary = None\<rparr>)"

text \<open>
  \<open>fetch_and_store_data\<close>: the batch fetch (outside the \<open>try\<close>, with the default delay
  of 12 seconds), then the storing.
\<close>

definition fetch_and_store_data :: "builtins \<Rightarrow> (nat \<Rightarrow> string \<Rightarrow> http_response) \<Rightarrow>
    (string \<Rightarrow> bool) \<Rightarrow> string list \<Rightarrow> stock_price list \<Rightarrow> exn + store_result \<times> event list" where
  "fetch_and_store_data B net commit_ok symbols table =
     bindE (fetch_multiple_symbols B net symbols 12) (\<lambda>(all_data, events).
       Inr (store_data commit_ok table all_data, events))"

section \<open>main.py: the report\<close>

text \<open>
  \<open>session.query(StockPrice).filter_by(symbol=..).order_by(StockPrice.date.desc())\<close>:
  the rows of one symbol, newest date first.
\<close>

definition latest_rows :: "stock_price list \<Rightarrow> string \<Rightarrow> stock_price list" where
  "latest_rows table symb = rev (sort_key date (filter (\<lambda>row. symbol row = symb) table))"

text \<open>
  Python's format specification for a float, as \<open>float.__format__\<close> reads it:
  \<open>[[fill]align][sign][z][#][0][width][grouping][.precision][type]\<close>, read from the
  left, each part optional; what is left after the precision must be at most one
  character, the type, and for a float the type is one of \<open>eEfFgGn%\<close>. A specification
  that does not fit raises ValueError. (A width too large for a machine word is also
  refused by Python; no specification of this program has one.)
\<close>

definition is_alignment_token :: "char \<Rightarrow> bool" where
  "is_alignment_token c = (c \<in> set ''<>=^'')"

definition is_sign_element :: "char \<Rightarrow> bool" where
  "is_sign_element c = (c \<in> set '' +-'')"

definition is_digit :: "char \<Rightarrow> bool" where
  "is_digit c = (c \<in> set ''0123456789'')"

fun skip_fill_align :: "string \<Rightarrow> string" where
  "skip_fill_align (f # a # rest) =
     (if is_alignment_token a then rest
      else if is_alignment_token f then a # rest
      else f # a # rest)"
| "skip_fill_align [a] = (if is_alignment_token a then [] else [a])"
| "skip_fill_align [] = []"

definition starts_with :: "(char \<Rightarrow> bool) \<Rightarrow> string \<Rightarrow> bool" where
  "starts_with P s = (case s of [] \<Rightarrow> False | c # rest \<Rightarrow> P c)"

definition skip_opt :: "(char \<Rightarrow> bool) \<Rightarrow> string \<Rightarrow> string" where
  "skip_opt P s = (if starts_with P s then tl s else s)"

definition float_format_spec_ok :: "string \<Rightarrow> bool" where
  "float_format_spec_ok spec =
     (let s1 = skip_fill_align spec;
          s2 = skip_opt is_sign_element s1;
          s3 = skip_opt (\<lambda>c. c = CHR ''z'') s2;
          s4 = skip_opt (\<lambda>c. c = CHR ''#'') s3;
          s5 = dropWhile is_digit s4;
          comma = starts_with (\<lambda>c. c = CHR '','') s5;
          s6 = skip_opt (\<lambda>c. c = CHR '','') s5;
          underscore = starts_with (\<lambda>c. c = CHR ''_'') s6;
          s7 = skip_opt (\<lambda>c. c = CHR ''_'') s6;
          bad_grouping = ((comma \<and> underscore) \<or>
                          (underscore \<and> starts_with (\<lambda>c. c = CHR '','') s7));
          dot = starts_with (\<lambda>c. c = CHR ''.'') s7;
          missing_precision = (dot \<and> \<not> starts_with is_digit (tl s7));
          s8 = (if dot then dropWhile is_digit (tl s7) else s7)
      in \<not> bad_grouping \<and> \<not> missing_precision \<and>
         (case s8 of
            [] \<Rightarrow> True
          | [t] \<Rightarrow> t \<in> set ''eEfFgGn%'' \<and> \<not> ((comma \<or> underscore) \<and> t = CHR ''n'')
          | _ \<Rightarrow> False))"

text \<open>
  A replacement field \<open>{x:spec}\<close> of an f-string with a float \<open>x\<close>: the number as it
  will be shown (its digits are not modelled), or ValueError.
\<close>

definition format_float :: "string \<Rightarrow> real \<Rightarrow> exn + real" where
  "format_float spec x = (if float_format_spec_ok spec then Inr x else Inl ValueError)"

text \<open>Float division raises on a zero divisor.\<close>

definition py_div :: "real \<Rightarrow> real \<Rightarrow> exn + real" where
  "py_div a b = (if b = 0 then Inl ZeroDivisionError else Inr (a / b))"

text \<open>
  Lines 126 to 130: change and percentage change from the two rows of \<open>last_two\<close>,
  which has length 2 where this is called.
\<close>

definition day_over_day :: "stock_price list \<Rightarrow> exn + real \<times> real" where
  "day_over_day last_two =
     (let current = last_two ! 0;
          previous = last_two ! 1;
          change = close_price current - close_price previous
      in bindE (py_div change (close_price previous)) (\<lambda>quotient.
         Inr (change, quotient * 100)))"

text \<open>
  Line 132, \<open>print(f"{symbol:<10} ${change:+.2f:<13} {pct_change:+.2f}%")\<close>: the fields
  are formatted from the left, and the line is printed only when all are.
\<close>

definition print_metrics_line :: "string \<Rightarrow> real \<Rightarrow> real \<Rightarrow> exn + string \<times> real \<times> real" where
  "print_metrics_line symb change pct_change =
     bindE (format_float ''+.2f:<13'' change) (\<lambda>shown_change.
     bindE (format_float ''+.2f'' pct_change) (\<lambda>shown_pct.
     Inr (symb, shown_change, shown_pct)))"

text \<open>
  The loops of the report carry the lines printed so far; an exception ends the loop
  and is handed, with those lines, to the handler of \<open>generate_analytics_report\<close>.
  First loop, lines 107 to 114 (the close price goes through \<open><14.2f\<close>; the other
  fields are texts and an integer with valid specifications).
\<close>

fun latest_prices_loop :: "stock_price list \<Rightarrow> string list \<Rightarrow> (string \<times> date \<times> real \<times> int) list \<Rightarrow>
    (string \<times> date \<times> real \<times> int) list \<times> exn option" where
  "latest_prices_loop table [] printed = (printed, None)"
| "latest_prices_loop table (symb # rest) printed =
     (case latest_rows table symb of
        [] \<Rightarrow> latest_prices_loop table rest printed
      | latest # older \<Rightarrow>
          (case format_float ''<14.2f'' (close_price latest) of
             Inl e \<Rightarrow> (printed, Some e)
           | Inr shown \<Rightarrow>
               latest_prices_loop table rest
                 (printed @ [(symbol latest, date latest, shown, volume latest)])))"

text \<open>Second loop, lines 120 to 132.\<close>

fun metrics_loop :: "stock_price list \<Rightarrow> string list \<Rightarrow> (string \<times> real \<times> real) list \<Rightarrow>
    (string \<times> real \<times> real) list \<times> exn option" where
  "metrics_loop table [] printed = (printed, None)"
| "metrics_loop table (symb # rest) printed =
     (let last_two = take 2 (latest_rows table symb)
      in if length last_two = 2 then
           (case bindE (day_over_day last_two) (\<lambda>(change, pct_change).
                   print_metrics_line symb change pct_change) of
              Inl e \<Rightarrow> (printed, Some e)
            | Inr line \<Rightarrow> metrics_loop table rest (printed @ [line]))
         else metrics_loop table rest printed)"

text \<open>
  \<open>generate_analytics_report\<close>: what it prints in its two tables and the exception its
  handler caught and logged, if any. (The overview printed from \<open>get_table_stats\<close>
  reads no row and raises nothing.)
\<close>

record report =
  latest_prices :: "(string \<times> date \<times> real \<times> int) list"
  performance_metrics :: "(string \<times> real \<times> real) list"
  caught :: "exn option"

definition generate_analytics_report :: "stock_price list \<Rightarrow> string list \<Rightarrow> report" where
  "generate_analytics_report table symbols =
     (case latest_prices_loop table symbols [] of
        (prices, Some e) \<Rightarrow>
          \<lparr>latest_prices = prices, performance_metrics = [], caught = Some e\<rparr>
      | (prices, None) \<Rightarrow>
          (case metrics_loop table symbols [] of
             (lines, failure) \<Rightarrow>
               \<lparr>latest_prices = prices, performance_metrics = lines, caught = failure\<rparr>))"

section \<open>main.py: the run\<close>

text \<open>
  \<open>setup_database\<close>: \<open>connection_ok\<close> and \<open>tables_ok\<close> are what \<open>test_connection\<close> and
  \<open>create_tables\<close> return (each returns False when the database raises).
\<close>

definition setup_database :: "bool \<Rightarrow> bool \<Rightarrow> bool" where
  "setup_database connection_ok tables_ok =
     (if \<not> connection_ok then False
      else if \<not> tables_ok then False
      else True)"

record run_result =
  run_returned :: bool
  run_table :: "stock_price list"
  run_report :: "report option"

definition run :: "builtins \<Rightarrow> (nat \<Rightarrow> string \<Rightarrow> http_response) \<Rightarrow> (string \<Rightarrow> bool) \<Rightarrow> bool \<Rightarrow> bool \<Rightarrow>
    string list \<Rightarrow> stock_price list \<Rightarrow> exn + run_result" where
  "run B net commit_ok connection_ok tables_ok symbols table =
     (if \<not> setup_database connection_ok tables_ok then
        Inr \<lparr>run_returned = False, run_table = table, run_report = None\<rparr>
      else
        bindE (fetch_and_store_data B net commit_ok symbols table) (\<lambda>(stored, events).
          if \<not> returned stored then
            Inr \<lparr>run_returned = False, run_table = table_after stored, run_report = None\<rparr>
          else
            Inr \<lparr>run_returned = True, run_table = table_after stored,
                 run_report = Some (generate_analytics_report (table_after stored) symbols)\<rparr>))"

text \<open>The symbols the pipeline tracks, \<open>self.symbols\<close>.\<close>

definition tracked_symbols :: "string list" where
  "tracked_symbols = [''JPM'', ''BAC'', ''WFC'', ''GS'', ''MS'']"

section \<open>The properties, stated apart from the code\<close>

subsection \<open>Parser\<close>

text \<open>
  A day entry is malformed when its day key is no date, or one of the five fields is
  missing, or a field that is present is a text refused by \<open>float\<close> (a price) or by
  \<open>int\<close> (the volume). These are the faults that raise KeyError or ValueError.
\<close>

definition price_fields :: "string list" where
  "price_fields = [''1. open'', ''2. high'', ''3. low'', ''4. close'']"

definition fields_of :: "json \<Rightarrow> (string \<times> json) list" where
  "fields_of values = (case values of JObj members \<Rightarrow> members | _ \<Rightarrow> [])"





text \<open>
  A series is plain when it is an object whose entries are objects in which every one
  of the five fields that is present is a text, a number or a boolean: the values on
  which \<open>float\<close> and \<open>int\<close> raise nothing but ValueError.
\<close>

definition scalar :: "json \<Rightarrow> bool" where
  "scalar v = (case v of JStr s \<Rightarrow> True | JNum x \<Rightarrow> True | JBool b \<Rightarrow> True | _ \<Rightarrow> False)"

definition plain_entry :: "string \<times> json \<Rightarrow> bool" where
  "plain_entry entry =
     (case snd entry of
        JObj members \<Rightarrow>
          list_all (\<lambda>k. case map_of members k of None \<Rightarrow> True | Some v \<Rightarrow> scalar v)
            (price_fields @ [''5. volume''])
      | _ \<Rightarrow> False)"

definition plain_series :: "json \<Rightarrow> bool" where
  "plain_series series =
     (case series of JObj entries \<Rightarrow> list_all plain_entry entries | _ \<Rightarrow> False)"

text \<open>The records of the entries that can be built, in the order of the series.\<close>

definition accepted_records :: "builtins \<Rightarrow> string \<Rightarrow> (string \<times> json) list \<Rightarrow> stock_price list" where
  "accepted_records B symb entries =
     List.map_filter (\<lambda>(date_str, values).
        case build_record B symb date_str values of Inl e \<Rightarrow> None | Inr record \<Rightarrow> Some record)
      entries"

subsection \<open>Fetcher\<close>

text \<open>
  The three kinds of failure the specification names, for a response. An unrecognized
  shape is a body that is no object, an object without the series key, or a series that
  is a number, a boolean or null.
\<close>

datatype failure = RateLimited | UpstreamDataError | TransportError

definition classify :: "http_response \<Rightarrow> failure option" where
  "classify response =
     (case response of
        Unreachable \<Rightarrow> Some TransportError
      | BadStatus \<Rightarrow> Some TransportError
      | NotJson \<Rightarrow> Some TransportError
      | Body data \<Rightarrow>
          (case data of
             JObj members \<Rightarrow>
               if map_of members ''Error Message'' \<noteq> None then Some UpstreamDataError
               else if map_of members ''Note'' \<noteq> None then Some RateLimited
               else (case map_of members ''Time Series (Daily)'' of
                       None \<Rightarrow> Some UpstreamDataError
                     | Some series \<Rightarrow> if has_len series then None else Some UpstreamDataError)
           | _ \<Rightarrow> Some UpstreamDataError))"

text \<open>
  Whether the parser raises on what a request for a symbol brings, and what the batch
  stores under the symbol when it does not.
\<close>

definition parser_raises :: "builtins \<Rightarrow> (nat \<Rightarrow> string \<Rightarrow> http_response) \<Rightarrow> nat \<times> string \<Rightarrow> bool" where
  "parser_raises B net request =
     (case fetch_daily_data (net (fst request)) (snd request) of
        None \<Rightarrow> False
      | Some series \<Rightarrow> truth_value series \<and> isl (parse_stock_data B (snd request) series))"

definition symbol_outcome :: "builtins \<Rightarrow> (string \<Rightarrow> http_response) \<Rightarrow> string \<Rightarrow> stock_price list" where
  "symbol_outcome B provider symb =
     (case fetch_daily_data provider symb of
        None \<Rightarrow> []
      | Some series \<Rightarrow>
          if truth_value series then
            (case parse_stock_data B symb series of Inl e \<Rightarrow> [] | Inr records \<Rightarrow> records)
          else [])"

subsection \<open>Store\<close>

text \<open>
  Insert-if-absent by key, one record after the other: what an upsert of a batch into
  a table is to leave.
\<close>

definition upsert :: "stock_price list \<Rightarrow> stock_price list \<Rightarrow> stock_price list" where
  "upsert table records =
     fold (\<lambda>record t. if key record \<in> set (map key t) then t else t @ [record]) records table"

definition all_records :: "all_data \<Rightarrow> stock_price list" where
  "all_records all_data = concat (map snd all_data)"

text \<open>
  Two batches cover the same input window when they hold the same symbols with records
  of the same keys, in the same order (the records of a second run differ from those of
  the first in \<open>created_at\<close>).
\<close>

definition same_window :: "all_data \<Rightarrow> all_data \<Rightarrow> bool" where
  "same_window a b = (map (\<lambda>(symb, records). (symb, map key records)) a =
                      map (\<lambda>(symb, records). (symb, map key records)) b)"

text \<open>The tables the pipeline can reach from the empty table by storing batches.\<close>

inductive reachable :: "stock_price list \<Rightarrow> bool" where
  fresh: "reachable []"
| stored: "reachable table \<Longrightarrow> reachable (table_after (store_data commit_ok table all_data))"

section \<open>Example inputs\<close>

text \<open>Library functions cut down to the texts that occur in the examples.\<close>

definition example_builtins :: builtins where
  "example_builtins =
     \<lparr>strptime = map_of [(''2024-01-01'', (2024, 1, 1)), (''2024-01-02'', (2024, 1, 2)),
                         (''2024-01-03'', (2024, 1, 3))],
      float_of = map_of [(''150.00'', 150), (''153.00'', 153)],
      int_of = map_of [(''1000'', 1000)],
      now = (\<lambda>symb date_str. 0)\<rparr>"

definition day_values :: "string \<Rightarrow> json" where
  "day_values price =
     JObj [(''1. open'', JStr price), (''2. high'', JStr price), (''3. low'', JStr price),
           (''4. close'', JStr price), (''5. volume'', JStr ''1000'')]"

text \<open>Two days, the newer first, as the provider sends them.\<close>

definition example_series :: json where
  "example_series =
     JObj [(''2024-01-02'', day_values ''153.00''), (''2024-01-01'', day_values ''150.00'')]"




definition good_payload :: json where
  "good_payload = JObj [(''Time Series (Daily)'', example_series)]"

definition rate_limited_payload :: json where
  "rate_limited_payload = JObj [(''Note'', JStr ''API call frequency exceeded'')]"

definition error_payload :: json where
  "error_payload = JObj [(''Error Message'', JStr ''Invalid API call'')]"


definition row :: "string \<Rightarrow> date \<Rightarrow> real \<Rightarrow> stock_price" where
  "row symb d price =
     \<lparr>symbol = symb, date = d, open_price = price, high_price = price, low_price = price,
      close_price = price, volume = 1000, created_at = 0\<rparr>"

text \<open>A provider that answers every request with the two example days.\<close>

definition steady_net :: "nat \<Rightarrow> string \<Rightarrow> http_response" where
  "steady_net i symb = Body good_payload"

text \<open>A provider that refuses JPM with the rate-limit note and serves every other symbol.\<close>

definition jpm_limited_net :: "nat \<Rightarrow> string \<Rightarrow> http_response" where
  "jpm_limited_net i symb = (if symb = ''JPM'' then Body rate_limited_payload else Body good_payload)"


text \<open>A table with two symbols of two days each, the newer day stored first.\<close>

definition two_symbol_table :: "stock_price list" where
  "two_symbol_table =
     [row ''JPM'' (2024, 1, 2) 153, row ''JPM'' (2024, 1, 1) 150,
      row ''BAC'' (2024, 1, 2) 153, row ''BAC'' (2024, 1, 1) 150]"

text \<open>A parsed batch of two symbols, and the same input window parsed at a later time.\<close>

definition example_batch :: all_data where
  "example_batch =
     [(''JPM'', [row ''JPM'' (2024, 1, 2) 153, row ''JPM'' (2024, 1, 1) 150]),
      (''BAC'', [row ''BAC'' (2024, 1, 2) 153])]"

definition later_batch :: all_data where
  "later_batch =
     [(''JPM'', [(row ''JPM'' (2024, 1, 2) 153)\<lparr>created_at := 60\<rparr>,
                 (row ''JPM'' (2024, 1, 1) 150)\<lparr>created_at := 60\<rparr>]),
      (''BAC'', [(row ''BAC'' (2024, 1, 2) 153)\<lparr>created_at := 61\<rparr>])]"

text \<open>A database that refuses the commit of one symbol's rows.\<close>

definition refuses :: "string \<Rightarrow> string \<Rightarrow> bool" where
  "refuses refused_symbol symb = (symb \<noteq> refused_symbol)"

section \<open>The parser: what it returns\<close>

lemma bindE_Inr [simp]: "bindE (Inr v) f = f v"
  by (simp add: bindE_def)

lemma bindE_Inl [simp]: "bindE (Inl e) f = Inl e"
  by (simp add: bindE_def)

lemma bindE_Inr_iff: "bindE m f = Inr y \<longleftrightarrow> (\<exists>v. m = Inr v \<and> f v = Inr y)"
  by (cases m) simp_all

lemma bindE_Inl_iff: "bindE m f = Inl e \<longleftrightarrow> m = Inl e \<or> (\<exists>v. m = Inr v \<and> f v = Inl e)"
  by (cases m) simp_all

lemma convert_error: "convert f s = Inl e \<Longrightarrow> e = ValueError"
  by (simp add: convert_def split: option.splits)

lemma build_record_symbol:
  "build_record B symb date_str vals = Inr r \<Longrightarrow> symbol r = symb"
  unfolding build_record_def bindE_Inr_iff by auto


text \<open>A field of a plain entry raises KeyError or ValueError, if it raises.\<close>

lemma scalar_float_error: "scalar v \<Longrightarrow> py_float B v = Inl e \<Longrightarrow> e = ValueError"
  by (cases v) (auto simp: scalar_def py_float_def dest: convert_error)

lemma scalar_int_error: "scalar v \<Longrightarrow> py_int B v = Inl e \<Longrightarrow> e = ValueError"
  by (cases v) (auto simp: scalar_def py_int_def dest: convert_error)

lemma bindE_InlE:
  assumes "bindE m f = Inl e"
  obtains "m = Inl e" | v where "m = Inr v" "f v = Inl e"
  using assms by (auto simp: bindE_Inl_iff)

lemma plain_field_error:
  assumes "case map_of members k of None \<Rightarrow> True | Some v \<Rightarrow> scalar v"
    and "\<And>v e. scalar v \<Longrightarrow> conv v = Inl e \<Longrightarrow> e = ValueError"
    and "bindE (subscript (JObj members) k) conv = Inl e"
  shows "e = KeyError \<or> e = ValueError"
  using assms by (auto simp: subscript_def bindE_Inl_iff split: option.splits)

lemma plain_entry_error:
  assumes "plain_entry (date_str, vals)" and "build_record B symb date_str vals = Inl e"
  shows "e = KeyError \<or> e = ValueError"
proof -
  from assms(1) obtain members where vals: "vals = JObj members"
    and fields: "\<And>k. k \<in> set (price_fields @ [''5. volume'']) \<Longrightarrow>
        (case map_of members k of None \<Rightarrow> True | Some v \<Rightarrow> scalar v)"
    by (auto simp: plain_entry_def list_all_iff split: json.splits)
  have price: "e' = KeyError \<or> e' = ValueError"
    if "bindE (subscript vals k) (py_float B) = Inl e'" "k \<in> set price_fields" for k e'
    using that(1) unfolding vals
    by (rule plain_field_error [rotated 2]) (use that(2) fields scalar_float_error in auto)
  have vol: "e' = KeyError \<or> e' = ValueError"
    if "bindE (subscript vals ''5. volume'') (py_int B) = Inl e'" for e'
    using that unfolding vals
    by (rule plain_field_error [rotated 2]) (use fields scalar_int_error in auto)
  from assms(2) show ?thesis
    unfolding build_record_def
    apply (erule_tac bindE_InlE)
     apply (blast dest: convert_error)
    apply (erule_tac bindE_InlE)
     apply (erule price, simp add: price_fields_def)
    apply (erule_tac bindE_InlE)
     apply (erule price, simp add: price_fields_def)
    apply (erule_tac bindE_InlE)
     apply (erule price, simp add: price_fields_def)
    apply (erule_tac bindE_InlE)
     apply (erule price, simp add: price_fields_def)
    apply (erule_tac bindE_InlE)
     apply (erule vol)
    apply simp
    done
qed

lemma parse_loop_returned:
  "parse_loop B symb entries parsed_data = Inr records \<Longrightarrow>
     records = parsed_data @ accepted_records B symb entries"
proof (induction entries arbitrary: parsed_data)
  case Nil
  then show ?case by (simp add: accepted_records_def List.map_filter_simps)
next
  case (Cons entry entries)
  obtain date_str vals where entry: "entry = (date_str, vals)" by (cases entry)
  show ?case
  proof (cases "build_record B symb date_str vals")
    case (Inl e)
    with Cons.prems have "parse_loop B symb entries parsed_data = Inr records"
      by (simp add: entry split: if_splits)
    from Cons.IH [OF this] Inl show ?thesis
      by (simp add: entry accepted_records_def List.map_filter_simps)
  next
    case (Inr r)
    with Cons.prems have "parse_loop B symb entries (parsed_data @ [r]) = Inr records"
      by (simp add: entry)
    from Cons.IH [OF this] Inr show ?thesis
      by (simp add: entry accepted_records_def List.map_filter_simps)
  qed
qed


lemma parse_loop_plain:
  "list_all plain_entry entries \<Longrightarrow>
     parse_loop B symb entries parsed_data = Inr (parsed_data @ accepted_records B symb entries)"
proof (induction entries arbitrary: parsed_data)
  case Nil
  show ?case by (simp add: accepted_records_def List.map_filter_simps)
next
  case (Cons entry entries)
  obtain date_str vals where entry: "entry = (date_str, vals)" by (cases entry)
  from Cons.prems have plain: "plain_entry (date_str, vals)" and rest: "list_all plain_entry entries"
    by (simp_all add: entry)
  show ?case
  proof (cases "build_record B symb date_str vals")
    case (Inl e)
    with plain have "e = KeyError \<or> e = ValueError" by (rule plain_entry_error)
    with Inl Cons.IH [OF rest, of parsed_data] show ?thesis
      by (auto simp: entry accepted_records_def List.map_filter_simps)
  next
    case (Inr r)
    with Cons.IH [OF rest, of "parsed_data @ [r]"] show ?thesis
      by (simp add: entry accepted_records_def List.map_filter_simps)
  qed
qed

lemma parse_stock_data_plain:
  "plain_series series \<Longrightarrow>
     parse_stock_data B symb series = Inr (accepted_records B symb (fields_of series))"
  by (cases series) (simp_all add: plain_series_def parse_stock_data_def fields_of_def parse_loop_plain)

lemma parse_stock_data_returned:
  "parse_stock_data B symb series = Inr records \<Longrightarrow>
     records = accepted_records B symb (fields_of series)"
  by (cases series) (auto simp: parse_stock_data_def fields_of_def dest: parse_loop_returned)


lemma accepted_records_symbol:
  "r \<in> set (accepted_records B symb entries) \<Longrightarrow> symbol r = symb"
  by (auto simp: accepted_records_def List.map_filter_def dest: build_record_symbol split: sum.splits)

text \<open>
  Claim C9. For every symbol and every raw series, every record the parser returns
  carries the symbol it was called with; and on a plain series the parser does return.
\<close>

theorem parser_keeps_symbol:
  "(\<forall>records. parse_stock_data B symb series = Inr records \<longrightarrow>
      (\<forall>r \<in> set records. symbol r = symb)) \<and>
   (plain_series series \<longrightarrow> (\<exists>records. parse_stock_data B symb series = Inr records))"
  by (auto dest!: parse_stock_data_returned simp: accepted_records_symbol parse_stock_data_plain)










lemmas run_parser = parse_stock_data_def build_record_def bindE_def subscript_def convert_def
  py_float_def py_int_def example_builtins_def day_values_def row_def





theorem parser_keeps_symbol_witness:
  "parse_stock_data example_builtins ''JPM'' example_series =
     Inr [row ''JPM'' (2024, 1, 2) 153, row ''JPM'' (2024, 1, 1) 150] \<and>
   list_all (\<lambda>r. symbol r = ''JPM'') [row ''JPM'' (2024, 1, 2) 153, row ''JPM'' (2024, 1, 1) 150] \<and>
   plain_series example_series"
proof -
  have run: "parse_stock_data example_builtins ''JPM'' example_series =
     Inr [row ''JPM'' (2024, 1, 2) 153, row ''JPM'' (2024, 1, 1) 150]"
    by (simp add: run_parser example_series_def)
  have plain: "plain_series example_series"
    by (simp add: plain_series_def plain_entry_def example_series_def day_values_def scalar_def
        price_fields_def)
  from parser_keeps_symbol [of example_builtins "''JPM''" example_series] run plain
  show ?thesis by (simp add: list_all_iff)
qed

section \<open>The fetcher: failures and the batch\<close>

lemma fetch_daily_data_classify:
  "fetch_daily_data provider symb =
     (case classify (provider symb) of
        Some kind \<Rightarrow> None
      | None \<Rightarrow> (case provider symb of
                   Body (JObj members) \<Rightarrow> map_of members ''Time Series (Daily)''
                 | _ \<Rightarrow> None))"
  by (simp add: fetch_daily_data_def fetch_body_def classify_def
      split: http_response.splits json.splits option.splits)

text \<open>
  Claim C5, as amended. For every response the single-symbol fetch raises nothing. Every
  kind of failure (a rate-limit note, an error message, a body that is no object or
  has no series or whose series is a number, a boolean or null, a failure of the
  transport) gives the same result \<open>None\<close>; any other response gives the value under
  the series key.
\<close>

theorem fetch_failure_is_none:
  "(classify (provider symb) \<noteq> None \<longrightarrow> fetch_daily_data provider symb = None) \<and>
   (classify (provider symb) = None \<longrightarrow>
      (\<exists>members series. provider symb = Body (JObj members) \<and>
         map_of members ''Time Series (Daily)'' = Some series \<and>
         fetch_daily_data provider symb = Some series))"
  by (auto simp: fetch_daily_data_def fetch_body_def classify_def
      split: http_response.splits json.splits option.splits if_splits)

theorem fetch_failure_is_none_witness:
  "classify (Body rate_limited_payload) \<noteq> None \<and>
   fetch_daily_data (\<lambda>symb. Body rate_limited_payload) ''JPM'' = None \<and>
   classify (Body good_payload) = None \<and>
   fetch_daily_data (\<lambda>symb. Body good_payload) ''JPM'' = Some example_series"
  using fetch_failure_is_none [of "\<lambda>symb. Body rate_limited_payload" "''JPM''"]
    fetch_failure_is_none [of "\<lambda>symb. Body good_payload" "''JPM''"]
  by (simp add: classify_def rate_limited_payload_def good_payload_def has_len_def
      example_series_def)

text \<open>
  Claim C5 as stated fails: a rate-limit note, an error message and an unreachable
  provider are three different kinds of failure and come back as one and the same
  value, so the caller cannot tell them apart.
\<close>

theorem fetch_failures_indistinguishable:
  "classify (Body rate_limited_payload) = Some RateLimited \<and>
   classify (Body error_payload) = Some UpstreamDataError \<and>
   classify Unreachable = Some TransportError \<and>
   fetch_daily_data (\<lambda>symb. Body rate_limited_payload) ''JPM'' = None \<and>
   fetch_daily_data (\<lambda>symb. Body error_payload) ''JPM'' = None \<and>
   fetch_daily_data (\<lambda>symb. Unreachable) ''JPM'' = None"
  by (simp add: classify_def fetch_daily_data_def fetch_body_def rate_limited_payload_def
      error_payload_def)

text \<open>One iteration of the batch loop: it goes on unless the parser raises.\<close>

lemma fetch_loop_step:
  assumes "\<not> parser_raises B net (i, symb)"
  shows "fetch_loop B net delay n ((i, symb) # rest) (all_data, events) =
     fetch_loop B net delay n rest
       (AList.update symb (symbol_outcome B (net i) symb) all_data,
        events @ Request symb #
          (if truthy (fetch_daily_data (net i) symb) \<and> Suc i < n then [Sleep delay] else []))"
proof (cases "fetch_daily_data (net i) symb")
  case None
  then show ?thesis
    by (simp add: Let_def truthy_def symbol_outcome_def)
next
  case (Some series)
  have less: "(int i < int n - 1) = (Suc i < n)" by auto
  show ?thesis
  proof (cases "truth_value series")
    case False
    with Some show ?thesis
      by (simp add: Let_def truthy_def symbol_outcome_def)
  next
    case True
    with assms Some obtain records where "parse_stock_data B symb series = Inr records"
      by (cases "parse_stock_data B symb series") (auto simp: parser_raises_def)
    with Some True less show ?thesis
      by (simp add: Let_def truthy_def symbol_outcome_def)
  qed
qed

lemma fetch_loop_raises:
  assumes "parser_raises B net (i, symb)"
  shows "\<exists>e. fetch_loop B net delay n ((i, symb) # rest) (all_data, events) = Inl e"
proof -
  from assms obtain series e where "fetch_daily_data (net i) symb = Some series"
    "truth_value series" "parse_stock_data B symb series = Inl e"
    by (cases "fetch_daily_data (net i) symb")
      (auto simp: parser_raises_def isl_def)
  then show ?thesis
    by (simp add: Let_def truthy_def)
qed

lemma fetch_loop_Cons_returned:
  assumes "fetch_loop B net delay n ((i, symb) # rest) (all_data, events) = Inr result"
  shows "fetch_loop B net delay n rest
       (AList.update symb (symbol_outcome B (net i) symb) all_data,
        events @ Request symb #
          (if truthy (fetch_daily_data (net i) symb) \<and> Suc i < n then [Sleep delay] else [])) =
      Inr result"
proof (cases "parser_raises B net (i, symb)")
  case True
  from fetch_loop_raises [OF True, of delay n rest all_data events] assms show ?thesis by auto
next
  case False
  from fetch_loop_step [OF False, of delay n rest all_data events] assms show ?thesis by simp
qed



lemma requests_append [simp]: "requests (xs @ ys) = requests xs @ requests ys"
  by (simp add: requests_def)

lemma delays_append [simp]: "delays (xs @ ys) = delays xs @ delays ys"
  by (simp add: delays_def)

lemma requests_simps [simp]:
  "requests [] = []" "requests (Request s # es) = s # requests es"
  "requests (Sleep d # es) = requests es"
  by (simp_all add: requests_def)

lemma delays_simps [simp]:
  "delays [] = []" "delays (Request s # es) = delays es"
  "delays (Sleep d # es) = d # delays es"
  by (simp_all add: delays_def)





text \<open>
  A delay follows a request exactly when the request brought a non-empty series and was
  not the last of the batch.
\<close>

lemma fetch_loop_delays:
  "fetch_loop B net delay n (enumerate k symbols) (all_data, events) = Inr (all_data', events') \<Longrightarrow>
     delays events' = delays events @
       replicate (length (filter (\<lambda>(i, symb). truthy (fetch_daily_data (net i) symb) \<and> Suc i < n)
                    (enumerate k symbols))) delay"
proof (induction symbols arbitrary: k all_data events)
  case Nil
  then show ?case by simp
next
  case (Cons symb symbols)
  from Cons.prems [unfolded enumerate_simps]
  have loop: "fetch_loop B net delay n (enumerate (Suc k) symbols)
       (AList.update symb (symbol_outcome B (net k) symb) all_data,
        events @ Request symb #
          (if truthy (fetch_daily_data (net k) symb) \<and> Suc k < n then [Sleep delay] else [])) =
      Inr (all_data', events')"
    by (rule fetch_loop_Cons_returned)
  from Cons.IH [OF loop] show ?case
    by (simp add: replicate_app_Cons_same)
qed

lemma delays_follow_successes:
  "fetch_multiple_symbols B net symbols delay = Inr (all_data, events) \<Longrightarrow>
     delays events =
       replicate (length (filter (\<lambda>(i, symb). truthy (fetch_daily_data (net i) symb) \<and>
                                     Suc i < length symbols) (enumerate 0 symbols))) delay"
  unfolding fetch_multiple_symbols_def by (drule fetch_loop_delays) simp



lemmas run_batch = fetch_multiple_symbols_def fetch_daily_data_def fetch_body_def truthy_def
  truth_value_def has_len_def run_parser example_series_def
  good_payload_def rate_limited_payload_def jpm_limited_net_def

text \<open>
  Claim C4 at a batch of three symbols whose first request is refused with the
  rate-limit note: the next request follows with no delay between, and the batch holds
  one delay where the claim has two.
\<close>

theorem no_delay_after_failed_fetch:
  "fetch_multiple_symbols example_builtins jpm_limited_net [''JPM'', ''BAC'', ''WFC''] 12 =
     Inr ([(''JPM'', []),
           (''BAC'', [row ''BAC'' (2024, 1, 2) 153, row ''BAC'' (2024, 1, 1) 150]),
           (''WFC'', [row ''WFC'' (2024, 1, 2) 153, row ''WFC'' (2024, 1, 1) 150])],
          [Request ''JPM'', Request ''BAC'', Sleep 12, Request ''WFC''])"
  by (simp add: run_batch)



section \<open>The store: upsert, uniqueness, idempotence\<close>

lemma upsert_Nil [simp]: "upsert table [] = table"
  by (simp add: upsert_def)

lemma upsert_Cons [simp]:
  "upsert table (r # rs) =
     upsert (if key r \<in> set (map key table) then table else table @ [r]) rs"
  by (simp add: upsert_def)

lemma upsert_append: "upsert table (rs @ rs') = upsert (upsert table rs) rs'"
  by (simp add: upsert_def)

lemma upsert_extends: "\<exists>new. upsert table rs = table @ new"
proof (induction rs arbitrary: table)
  case Nil
  show ?case by simp
next
  case (Cons r rs)
  show ?case
  proof (cases "key r \<in> set (map key table)")
    case True
    with Cons.IH [of table] show ?thesis by simp
  next
    case False
    from Cons.IH [of "table @ [r]"] obtain new where "upsert (table @ [r]) rs = (table @ [r]) @ new" ..
    with False show ?thesis by simp
  qed
qed

lemma upsert_distinct:
  "distinct (map key table) \<Longrightarrow> distinct (map key (upsert table rs))"
  by (induction rs arbitrary: table) simp_all

lemma upsert_keys:
  "set (map key (upsert table rs)) = set (map key table) \<union> set (map key rs)"
  by (induction rs arbitrary: table) auto

lemma upsert_known:
  "set (map key rs) \<subseteq> set (map key table) \<Longrightarrow> upsert table rs = table"
  by (induction rs arbitrary: table) simp_all

lemma query_first_None:
  "query_first s (symbol r) (date r) = None \<longleftrightarrow> key r \<notin> set (map key (committed s @ pending s))"
  by (auto simp: query_first_def find_None_iff key_def image_iff)

text \<open>One iteration of the inner loop.\<close>

lemma store_records_Cons:
  "store_records (r # rs) (s, a, b) =
     store_records rs
       (if key r \<in> set (map key (committed s @ pending s)) then (s, a, b + 1)
        else (session_add s r, a + 1, b))"
  using query_first_None [of s r]
  by (cases "query_first s (symbol r) (date r)") simp_all

lemma store_records_committed:
  "store_records rs (s, a, b) = (s', a', b') \<Longrightarrow> committed s' = committed s"
proof (induction rs arbitrary: s a b)
  case Nil
  then show ?case by simp
next
  case (Cons r rs)
  from Cons.prems show ?case
    unfolding store_records_Cons
    by (auto dest!: Cons.IH simp: session_add_def split: if_splits)
qed

lemma store_records_rows:
  "store_records rs (s, a, b) = (s', a', b') \<Longrightarrow>
     committed s @ pending s' = upsert (committed s @ pending s) rs"
proof (induction rs arbitrary: s a b)
  case Nil
  then show ?case by simp
next
  case (Cons r rs)
  from Cons.prems show ?case
    unfolding store_records_Cons
    by (auto dest!: Cons.IH simp: session_add_def split: if_splits)
qed

lemma store_records_counts:
  "store_records rs (s, a, b) = (s', a', b') \<Longrightarrow>
     a' + b' = a + b + length rs \<and> a' + length (pending s) = a + length (pending s')"
proof (induction rs arbitrary: s a b)
  case Nil
  then show ?case by simp
next
  case (Cons r rs)
  from Cons.prems show ?case
    unfolding store_records_Cons
    by (auto dest!: Cons.IH simp: session_add_def split: if_splits)
qed

lemma all_records_Nil [simp]: "all_records [] = []"
  by (simp add: all_records_def)

lemma all_records_Cons [simp]: "all_records ((symb, rs) # rest) = rs @ all_records rest"
  by (simp add: all_records_def)

lemma all_records_append [simp]: "all_records (xs @ ys) = all_records xs @ all_records ys"
  by (simp add: all_records_def)

lemma store_symbols_success:
  "store_symbols commit_ok all_data (s, a, b) = Inr (s', a', b') \<Longrightarrow> pending s = [] \<Longrightarrow>
     committed s' = upsert (committed s) (all_records all_data) \<and> pending s' = [] \<and>
     a' + b' = a + b + length (all_records all_data) \<and>
     a' + length (committed s) = a + length (committed s') \<and>
     list_all (\<lambda>entry. commit_ok (fst entry)) all_data"
proof (induction all_data arbitrary: s a b)
  case Nil
  then show ?case by simp
next
  case (Cons entry all_data)
  obtain symb rs where entry: "entry = (symb, rs)" by (cases entry)
  obtain s1 a1 b1 where inner: "store_records rs (s, a, b) = (s1, a1, b1)"
    by (cases "store_records rs (s, a, b)")
  from store_records_committed [OF inner] store_records_rows [OF inner]
    store_records_counts [OF inner] Cons.prems(2)
  have s1: "committed s1 = committed s" "committed s1 @ pending s1 = upsert (committed s) rs"
    "a1 + b1 = a + b + length rs" "a1 = a + length (pending s1)"
    by simp_all
  from s1(1,2) have len: "length (upsert (committed s) rs) = length (committed s) + length (pending s1)"
    by (metis length_append)
  from Cons.prems(1) inner have ok: "commit_ok symb"
    by (auto simp: entry session_commit_def split: if_splits)
  let ?s2 = "\<lparr>committed = committed s1 @ pending s1, pending = []\<rparr>"
  from Cons.prems(1) inner ok
  have rest: "store_symbols commit_ok all_data (?s2, a1, b1) = Inr (s', a', b')"
    by (simp add: entry session_commit_def)
  from Cons.IH [OF rest] have
    "committed s' = upsert (committed s1 @ pending s1) (all_records all_data)" "pending s' = []"
    "a' + b' = a1 + b1 + length (all_records all_data)"
    "a' + length (committed s1 @ pending s1) = a1 + length (committed s')"
    "list_all (\<lambda>entry. commit_ok (fst entry)) all_data"
    by simp_all
  with s1 ok len show ?case
    by (simp add: entry upsert_append)
qed

text \<open>
  The outer loop ends in an exception exactly when some commit is refused, and then the
  committed rows are those of the symbols before the first refused one.
\<close>

lemma store_symbols_prefix:
  "pending s = [] \<Longrightarrow>
   (case store_symbols commit_ok all_data (s, a, b) of
      Inr (s', a', b') \<Rightarrow> list_all (\<lambda>entry. commit_ok (fst entry)) all_data
    | Inl (e, s') \<Rightarrow> \<not> list_all (\<lambda>entry. commit_ok (fst entry)) all_data \<and>
        committed s' = upsert (committed s)
          (all_records (takeWhile (\<lambda>entry. commit_ok (fst entry)) all_data)))"
proof (induction all_data arbitrary: s a b)
  case Nil
  then show ?case by simp
next
  case (Cons entry all_data)
  obtain symb rs where entry: "entry = (symb, rs)" by (cases entry)
  obtain s1 a1 b1 where inner: "store_records rs (s, a, b) = (s1, a1, b1)"
    by (cases "store_records rs (s, a, b)")
  from store_records_committed [OF inner] store_records_rows [OF inner] Cons.prems
  have s1: "committed s1 = committed s" "committed s1 @ pending s1 = upsert (committed s) rs"
    by simp_all
  show ?case
  proof (cases "commit_ok symb")
    case False
    with inner s1 show ?thesis
      by (simp add: entry session_commit_def)
  next
    case True
    let ?s2 = "\<lparr>committed = committed s1 @ pending s1, pending = []\<rparr>"
    have "pending ?s2 = []" by simp
    from Cons.IH [OF this, of a1 b1] True inner s1 show ?thesis
      by (simp add: entry session_commit_def upsert_append split: sum.splits prod.splits)
  qed
qed


lemma takeWhile_all: "list_all P xs \<Longrightarrow> takeWhile P xs = xs"
  by (induction xs) simp_all

lemma store_data_success:
  assumes "list_all (\<lambda>entry. commit_ok (fst entry)) all_data"
  shows "\<exists>stored skipped.
           store_data commit_ok table all_data =
             \<lparr>returned = True, table_after = upsert table (all_records all_data),
              summary = Some (stored, skipped)\<rparr> \<and>
           stored + skipped = length (all_records all_data) \<and>
           length table + stored = length (upsert table (all_records all_data))"
proof (cases "store_symbols commit_ok all_data (get_session table, 0, 0)")
  case (Inl failure)
  with store_symbols_prefix [of "get_session table" commit_ok all_data 0 0] assms
  show ?thesis by (simp add: get_session_def split: prod.splits)
next
  case (Inr fin)
  obtain s' a' b' where fin: "fin = (s', a', b')" by (cases fin)
  from store_symbols_success [OF Inr [unfolded fin]]
  have "committed s' = upsert table (all_records all_data)"
    "a' + b' = length (all_records all_data)" "a' + length table = length (committed s')"
    by (simp_all add: get_session_def)
  with Inr fin show ?thesis
    by (simp add: store_data_def)
qed

lemma store_data_failure:
  assumes "\<not> list_all (\<lambda>entry. commit_ok (fst entry)) all_data"
  shows "store_data commit_ok table all_data =
           \<lparr>returned = False,
            table_after = upsert table
              (all_records (takeWhile (\<lambda>entry. commit_ok (fst entry)) all_data)),
            summary = None\<rparr>"
proof (cases "store_symbols commit_ok all_data (get_session table, 0, 0)")
  case (Inl failure)
  obtain e s' where failure: "failure = (e, s')" by (cases failure)
  from store_symbols_prefix [of "get_session table" commit_ok all_data 0 0] Inl failure
  have "committed s' = upsert table
      (all_records (takeWhile (\<lambda>entry. commit_ok (fst entry)) all_data))"
    by (simp add: get_session_def)
  with Inl failure show ?thesis
    by (simp add: store_data_def session_rollback_def)
next
  case (Inr fin)
  with store_symbols_prefix [of "get_session table" commit_ok all_data 0 0] assms
  show ?thesis by (simp add: get_session_def split: prod.splits)
qed

lemma store_data_returned:
  "returned (store_data commit_ok table all_data) =
     list_all (\<lambda>entry. commit_ok (fst entry)) all_data"
proof (cases "list_all (\<lambda>entry. commit_ok (fst entry)) all_data")
  case True
  from store_data_success [OF True, of table] True show ?thesis by auto
next
  case False
  from store_data_failure [OF False, of table] False show ?thesis by simp
qed

lemma store_data_table:
  "table_after (store_data commit_ok table all_data) =
     upsert table (all_records (takeWhile (\<lambda>entry. commit_ok (fst entry)) all_data))"
proof (cases "list_all (\<lambda>entry. commit_ok (fst entry)) all_data")
  case True
  from store_data_success [OF True, of table] show ?thesis
    unfolding takeWhile_all [OF True] by auto
next
  case False
  from store_data_failure [OF False, of table] show ?thesis by simp
qed

text \<open>
  Claim C10. Whenever the storing completes without a persistence error, the summary
  it logs satisfies stored + skipped = the number of parsed records of the whole
  mapping, and stored is the number of rows the table has gained.
\<close>

theorem upsert_accounting:
  assumes "returned (store_data commit_ok table all_data)"
  shows "\<exists>stored skipped.
           summary (store_data commit_ok table all_data) = Some (stored, skipped) \<and>
           stored + skipped = length (all_records all_data) \<and>
           length table + stored = length (table_after (store_data commit_ok table all_data))"
proof -
  from assms have "list_all (\<lambda>entry. commit_ok (fst entry)) all_data"
    by (simp add: store_data_returned)
  from store_data_success [OF this, of table] show ?thesis by auto
qed

text \<open>
  Claim C2. In every table the pipeline can reach, no two rows share (symbol, date);
  and whatever batch is stored next, and whether or not its commits are accepted, the
  table after it still has that property and begins with the rows it had before,
  unchanged.
\<close>

theorem uniqueness_invariant:
  assumes "reachable table"
  shows "distinct (map key table) \<and>
         (\<forall>commit_ok all_data.
            distinct (map key (table_after (store_data commit_ok table all_data))) \<and>
            (\<exists>new. table_after (store_data commit_ok table all_data) = table @ new))"
proof -
  from assms have "distinct (map key table)"
    by induction (simp_all add: store_data_table upsert_distinct)
  then show ?thesis
    by (simp add: store_data_table upsert_distinct upsert_extends)
qed

lemma same_window_keys:
  "same_window a b \<Longrightarrow> map key (all_records a) = map key (all_records b)"
proof (induction a arbitrary: b)
  case Nil
  then show ?case by (simp add: same_window_def)
next
  case (Cons x a)
  then obtain y b' where b: "b = y # b'" by (cases b) (auto simp: same_window_def)
  with Cons.prems have "same_window a b'" "map key (snd x) = map key (snd y)"
    by (auto simp: same_window_def split: prod.splits)
  with Cons.IH [of b'] b show ?case
    by (cases x; cases y) simp
qed

text \<open>
  Claim C1. After a run that stored a batch to the end, a second run over the same
  input window (from any table the first run started on) leaves the table exactly as
  the first run left it, and, completing, reports stored = 0 and skipped = the size of
  the whole batch.
\<close>

theorem ingestion_idempotent:
  assumes first: "returned (store_data commit_ok table all_data)"
    and window: "same_window all_data all_data2"
  shows "table_after (store_data commit_ok2 (table_after (store_data commit_ok table all_data)) all_data2) =
           table_after (store_data commit_ok table all_data) \<and>
         (returned (store_data commit_ok2 (table_after (store_data commit_ok table all_data)) all_data2) \<longrightarrow>
          summary (store_data commit_ok2 (table_after (store_data commit_ok table all_data)) all_data2) =
            Some (0, length (all_records all_data2)))"
proof -
  let ?table1 = "table_after (store_data commit_ok table all_data)"
  let ?second = "store_data commit_ok2 ?table1 all_data2"
  from first have "list_all (\<lambda>entry. commit_ok (fst entry)) all_data"
    by (simp add: store_data_returned)
  then have table1: "?table1 = upsert table (all_records all_data)"
    unfolding store_data_table by (simp only: takeWhile_all)
  have known: "set (map key (all_records all_data2)) \<subseteq> set (map key ?table1)"
    unfolding table1 upsert_keys same_window_keys [OF window] by blast
  have part: "set (map key (all_records (takeWhile P all_data2))) \<subseteq> set (map key (all_records all_data2))"
    for P
  proof -
    have "set (takeWhile P all_data2) \<subseteq> set all_data2" by (auto dest: set_takeWhileD)
    then show ?thesis by (auto simp: all_records_def)
  qed
  have unchanged: "table_after ?second = ?table1"
    unfolding store_data_table [of commit_ok2]
    by (rule upsert_known) (use known part in blast)
  have "summary ?second = Some (0, length (all_records all_data2))" if "returned ?second"
  proof -
    from that have "list_all (\<lambda>entry. commit_ok2 (fst entry)) all_data2"
      by (simp add: store_data_returned)
    from store_data_success [OF this, of ?table1] obtain stored skipped where
      "summary ?second = Some (stored, skipped)"
      "stored + skipped = length (all_records all_data2)"
      "length ?table1 + stored = length (table_after ?second)"
      by auto
    with unchanged show ?thesis by simp
  qed
  with unchanged show ?thesis by blast
qed


lemmas run_store = store_data_def get_session_def query_first_def session_add_def
  session_commit_def session_rollback_def row_def

theorem upsert_accounting_witness:
  "returned (store_data (\<lambda>symb. True) [row ''JPM'' (2024, 1, 1) 150] example_batch) \<and>
   summary (store_data (\<lambda>symb. True) [row ''JPM'' (2024, 1, 1) 150] example_batch) = Some (2, 1) \<and>
   length (all_records example_batch) = 3"
proof -
  have run: "store_data (\<lambda>symb. True) [row ''JPM'' (2024, 1, 1) 150] example_batch =
     \<lparr>returned = True,
      table_after = [row ''JPM'' (2024, 1, 1) 150, row ''JPM'' (2024, 1, 2) 153,
                     row ''BAC'' (2024, 1, 2) 153],
      summary = Some (2, 1)\<rparr>"
    by (simp add: run_store example_batch_def)
  then have "returned (store_data (\<lambda>symb. True) [row ''JPM'' (2024, 1, 1) 150] example_batch)"
    by simp
  from upsert_accounting [OF this] run show ?thesis
    by (simp add: example_batch_def)
qed

lemma first_run:
  "store_data (\<lambda>symb. True) [] example_batch =
     \<lparr>returned = True,
      table_after = [row ''JPM'' (2024, 1, 2) 153, row ''JPM'' (2024, 1, 1) 150,
                     row ''BAC'' (2024, 1, 2) 153],
      summary = Some (3, 0)\<rparr>"
  by (simp add: run_store example_batch_def)

theorem uniqueness_invariant_witness:
  "reachable [row ''JPM'' (2024, 1, 2) 153, row ''JPM'' (2024, 1, 1) 150, row ''BAC'' (2024, 1, 2) 153] \<and>
   distinct (map key
     [row ''JPM'' (2024, 1, 2) 153, row ''JPM'' (2024, 1, 1) 150, row ''BAC'' (2024, 1, 2) 153])"
proof -
  from reachable.stored [OF reachable.fresh, of "\<lambda>symb. True" example_batch]
  have reach: "reachable
      [row ''JPM'' (2024, 1, 2) 153, row ''JPM'' (2024, 1, 1) 150, row ''BAC'' (2024, 1, 2) 153]"
    by (simp add: first_run)
  from uniqueness_invariant [OF reach] reach show ?thesis by simp
qed

theorem ingestion_idempotent_witness:
  "returned (store_data (\<lambda>symb. True) [] example_batch) \<and>
   same_window example_batch later_batch \<and>
   store_data (\<lambda>symb. True) (table_after (store_data (\<lambda>symb. True) [] example_batch)) later_batch =
     \<lparr>returned = True,
      table_after = [row ''JPM'' (2024, 1, 2) 153, row ''JPM'' (2024, 1, 1) 150,
                     row ''BAC'' (2024, 1, 2) 153],
      summary = Some (0, 3)\<rparr>"
proof -
  have first: "returned (store_data (\<lambda>symb. True) [] example_batch)"
    by (simp add: first_run)
  have window: "same_window example_batch later_batch"
    by (simp add: same_window_def example_batch_def later_batch_def key_def row_def)
  have second: "store_data (\<lambda>symb. True) (table_after (store_data (\<lambda>symb. True) [] example_batch)) later_batch =
     \<lparr>returned = True,
      table_after = [row ''JPM'' (2024, 1, 2) 153, row ''JPM'' (2024, 1, 1) 150,
                     row ''BAC'' (2024, 1, 2) 153],
      summary = Some (0, 3)\<rparr>"
    unfolding first_run by (simp add: run_store later_batch_def)
  from ingestion_idempotent [OF first window, of "\<lambda>symb. True"] first window second
  show ?thesis by simp
qed

section \<open>The run and the report\<close>

lemma fetch_and_store_data_fetched:
  "fetch_multiple_symbols B net symbols 12 = Inr (all_data, events) \<Longrightarrow>
     fetch_and_store_data B net commit_ok symbols table =
       Inr (store_data commit_ok table all_data, events)"
  by (simp add: fetch_and_store_data_def)

lemma takeWhile_before:
  "list_all P before \<Longrightarrow> \<not> P x \<Longrightarrow> takeWhile P (before @ x # after) = before"
  by (induction before) simp_all

text \<open>
  Claim C3, as amended. When the commit of a symbol is refused during ingestion, the
  rows of the symbols committed before it stay in the table, exactly as a complete
  store of those symbols alone leaves them, and nothing of the refused symbol or of the
  symbols after it is stored; and the failure is fatal to the run, as a failure of
  either step of the setup is: \<open>run\<close> returns False and makes no report.
\<close>

theorem ingest_failure_aborts_run:
  assumes fetched: "fetch_multiple_symbols B net symbols 12 = Inr (all_data, events)"
    and split: "all_data = before @ (symb, records) # after"
    and earlier: "list_all (\<lambda>entry. commit_ok (fst entry)) before"
    and fails: "\<not> commit_ok symb"
  shows "run B net commit_ok True True symbols table =
           Inr \<lparr>run_returned = False, run_table = upsert table (all_records before),
                run_report = None\<rparr> \<and>
         returned (store_data commit_ok table before) \<and>
         table_after (store_data commit_ok table before) = upsert table (all_records before) \<and>
         run B net commit_ok False tables_ok symbols table =
           Inr \<lparr>run_returned = False, run_table = table, run_report = None\<rparr> \<and>
         run B net commit_ok True False symbols table =
           Inr \<lparr>run_returned = False, run_table = table, run_report = None\<rparr>"
proof -
  from fails have "\<not> list_all (\<lambda>entry. commit_ok (fst entry)) all_data"
    by (simp add: split)
  from store_data_failure [OF this, of table]
  have "store_data commit_ok table all_data =
      \<lparr>returned = False, table_after = upsert table (all_records before), summary = None\<rparr>"
    unfolding split using takeWhile_before [of "\<lambda>entry. commit_ok (fst entry)" before "(symb, records)" after]
      earlier fails by simp
  then have ingest: "run B net commit_ok True True symbols table =
      Inr \<lparr>run_returned = False, run_table = upsert table (all_records before), run_report = None\<rparr>"
    by (simp add: run_def setup_database_def fetch_and_store_data_fetched [OF fetched])
  from store_data_success [OF earlier, of table]
  have "returned (store_data commit_ok table before) \<and>
      table_after (store_data commit_ok table before) = upsert table (all_records before)"
    by auto
  with ingest show ?thesis
    by (simp add: run_def setup_database_def)
qed

lemmas run_batch2 = fetch_multiple_symbols_def fetch_daily_data_def fetch_body_def truthy_def
  truth_value_def has_len_def run_parser example_series_def good_payload_def steady_net_def

lemma steady_batch:
  "fetch_multiple_symbols example_builtins steady_net [''JPM'', ''BAC''] 12 =
     Inr ([(''JPM'', [row ''JPM'' (2024, 1, 2) 153, row ''JPM'' (2024, 1, 1) 150]),
           (''BAC'', [row ''BAC'' (2024, 1, 2) 153, row ''BAC'' (2024, 1, 1) 150])],
          [Request ''JPM'', Sleep 12, Request ''BAC''])"
  by (simp add: run_batch2)

theorem ingest_failure_aborts_run_witness:
  "fetch_multiple_symbols example_builtins steady_net [''JPM'', ''BAC''] 12 =
     Inr ([(''JPM'', [row ''JPM'' (2024, 1, 2) 153, row ''JPM'' (2024, 1, 1) 150])] @
          (''BAC'', [row ''BAC'' (2024, 1, 2) 153, row ''BAC'' (2024, 1, 1) 150]) # [],
          [Request ''JPM'', Sleep 12, Request ''BAC'']) \<and>
   list_all (\<lambda>entry. refuses ''BAC'' (fst entry))
     [(''JPM'', [row ''JPM'' (2024, 1, 2) 153, row ''JPM'' (2024, 1, 1) 150])] \<and>
   \<not> refuses ''BAC'' ''BAC'' \<and>
   run example_builtins steady_net (refuses ''BAC'') True True [''JPM'', ''BAC''] [] =
     Inr \<lparr>run_returned = False,
          run_table = [row ''JPM'' (2024, 1, 2) 153, row ''JPM'' (2024, 1, 1) 150],
          run_report = None\<rparr>"
proof -
  have fetched: "fetch_multiple_symbols example_builtins steady_net [''JPM'', ''BAC''] 12 =
     Inr ([(''JPM'', [row ''JPM'' (2024, 1, 2) 153, row ''JPM'' (2024, 1, 1) 150])] @
          (''BAC'', [row ''BAC'' (2024, 1, 2) 153, row ''BAC'' (2024, 1, 1) 150]) # [],
          [Request ''JPM'', Sleep 12, Request ''BAC''])"
    by (simp add: steady_batch)
  have earlier: "list_all (\<lambda>entry. refuses ''BAC'' (fst entry))
     [(''JPM'', [row ''JPM'' (2024, 1, 2) 153, row ''JPM'' (2024, 1, 1) 150])]"
    by (simp add: refuses_def)
  have fails: "\<not> refuses ''BAC'' ''BAC''"
    by (simp add: refuses_def)
  have rows: "upsert [] (all_records [(''JPM'', [row ''JPM'' (2024, 1, 2) 153, row ''JPM'' (2024, 1, 1) 150])]) =
      [row ''JPM'' (2024, 1, 2) 153, row ''JPM'' (2024, 1, 1) 150]"
    by (simp add: key_def row_def)
  from ingest_failure_aborts_run [OF fetched refl earlier fails, of "[]"] rows
    fetched earlier fails
  show ?thesis by simp
qed

text \<open>
  Claim C3 as stated fails: with the setup done, the commit of the third of the five
  tracked symbols refused, the run is aborted (it returns False, without a report); the
  rows of the first two symbols are in the table.
\<close>

theorem commit_failure_aborts_pipeline:
  "setup_database True True \<and>
   run example_builtins steady_net (refuses ''WFC'') True True tracked_symbols [] =
     Inr \<lparr>run_returned = False,
          run_table = [row ''JPM'' (2024, 1, 2) 153, row ''JPM'' (2024, 1, 1) 150,
                       row ''BAC'' (2024, 1, 2) 153, row ''BAC'' (2024, 1, 1) 150],
          run_report = None\<rparr>"
  by (simp add: run_def setup_database_def fetch_and_store_data_def run_batch2 run_store
      refuses_def tracked_symbols_def)


text \<open>The rows of a symbol are ordered by date, whatever the order they were stored in.\<close>

lemma latest_rows_set:
  "set (latest_rows table symb) = {r \<in> set table. symbol r = symb}"
  by (auto simp: latest_rows_def)

lemma latest_rows_newest_first:
  "sorted (rev (map date (latest_rows table symb)))"
  by (simp add: latest_rows_def rev_map [symmetric])

lemma day_over_day_formula:
  "close_price previous \<noteq> 0 \<Longrightarrow>
     day_over_day [current, previous] =
       Inr (close_price current - close_price previous,
            (close_price current - close_price previous) / close_price previous * 100)"
  by (simp add: day_over_day_def py_div_def Let_def)

lemma metrics_spec_refused: "\<not> float_format_spec_ok ''+.2f:<13''"
  by code_simp

lemma price_spec_accepted: "float_format_spec_ok ''<14.2f''"
  by code_simp

lemma pct_spec_accepted: "float_format_spec_ok ''+.2f''"
  by code_simp

lemma print_metrics_line_raises: "print_metrics_line symb change pct_change = Inl ValueError"
  by (simp add: print_metrics_line_def format_float_def metrics_spec_refused bindE_def)

text \<open>
  The specification \<open>+.2f:<13\<close> of line 132 is not one Python accepts, so the
  metrics loop ends at the first symbol that has two rows, and no metrics line is ever
  printed.
\<close>

lemma metrics_loop_stops:
  assumes "length (take 2 (latest_rows table symb)) = 2"
    and "day_over_day (take 2 (latest_rows table symb)) = Inr (change, pct_change)"
  shows "metrics_loop table (symb # rest) printed = (printed, Some ValueError)"
  using assms by (simp add: Let_def print_metrics_line_raises)

lemma metrics_loop_prints_nothing:
  "fst (metrics_loop table symbols printed) = printed"
proof (induction symbols)
  case Nil
  show ?case by simp
next
  case (Cons symb symbols)
  show ?case
  proof (cases "day_over_day (take 2 (latest_rows table symb))")
    case (Inl e)
    with Cons.IH show ?thesis by (simp add: Let_def bindE_def)
  next
    case (Inr result)
    with Cons.IH show ?thesis
      by (cases result) (simp add: Let_def print_metrics_line_raises)
  qed
qed

lemma jpm_last_two:
  "take 2 (latest_rows two_symbol_table ''JPM'') =
     [row ''JPM'' (2024, 1, 2) 153, row ''JPM'' (2024, 1, 1) 150]"
  by (simp add: latest_rows_def two_symbol_table_def row_def)

text \<open>
  Claim C8 at a table with two symbols of two days each. For the first symbol the two
  newest rows by date are taken (they were stored newest first) and the change 3 and
  the percentage 2 are computed; the format specification of line 132 is then refused
  with ValueError, no line of the metrics table is printed, and the second symbol is
  never reached.
\<close>

theorem report_stops_at_first_metrics_line:
  "take 2 (latest_rows two_symbol_table ''JPM'') =
     [row ''JPM'' (2024, 1, 2) 153, row ''JPM'' (2024, 1, 1) 150] \<and>
   day_over_day (take 2 (latest_rows two_symbol_table ''JPM'')) = Inr (3, 2) \<and>
   generate_analytics_report two_symbol_table [''JPM'', ''BAC''] =
     \<lparr>latest_prices = [(''JPM'', (2024, 1, 2), 153, 1000), (''BAC'', (2024, 1, 2), 153, 1000)],
      performance_metrics = [],
      caught = Some ValueError\<rparr>"
proof -
  have rows: "latest_rows two_symbol_table ''JPM'' =
      [row ''JPM'' (2024, 1, 2) 153, row ''JPM'' (2024, 1, 1) 150]"
    "latest_rows two_symbol_table ''BAC'' =
      [row ''BAC'' (2024, 1, 2) 153, row ''BAC'' (2024, 1, 1) 150]"
    by (simp_all add: latest_rows_def two_symbol_table_def row_def)
  have change: "day_over_day [row ''JPM'' (2024, 1, 2) 153, row ''JPM'' (2024, 1, 1) 150] = Inr (3, 2)"
    by (simp add: day_over_day_def py_div_def row_def bindE_def)
  have prices: "latest_prices_loop two_symbol_table [''JPM'', ''BAC''] [] =
      ([(''JPM'', (2024, 1, 2), 153, 1000), (''BAC'', (2024, 1, 2), 153, 1000)], None)"
    by (simp add: rows format_float_def price_spec_accepted row_def)
  have two: "length (take 2 (latest_rows two_symbol_table ''JPM'')) = 2"
    by (simp add: rows)
  have computed: "day_over_day (take 2 (latest_rows two_symbol_table ''JPM'')) = Inr (3, 2)"
    unfolding rows using change by simp
  have metrics: "metrics_loop two_symbol_table [''JPM'', ''BAC''] [] = ([], Some ValueError)"
    using two computed by (rule metrics_loop_stops)
  from rows(1) have "take 2 (latest_rows two_symbol_table ''JPM'') =
     [row ''JPM'' (2024, 1, 2) 153, row ''JPM'' (2024, 1, 1) 150]"
    by simp
  with computed show ?thesis
    by (simp only: generate_analytics_report_def prices metrics prod.case option.case simp_thms)
qed

end
